theory Spec2Isabelle
  imports Main "HOL-Library.Char_ord" "HOL-Library.List_Lexorder" "HOL-Library.Product_Lexorder"
    "HOL-Library.Multiset"
begin

section \<open>The to-do application of app.py\<close>

subsection \<open>Dates, timestamps and Python errors\<close>

text \<open>
  A \<^verbatim>\<open>datetime.date\<close> is its proleptic Gregorian ordinal (\<^verbatim>\<open>date.toordinal()\<close>):
  \<^verbatim>\<open>date.min\<close> is 1 and \<^verbatim>\<open>date.max\<close> (9999-12-31) is 3652059. Comparison of dates is
  comparison of ordinals. A \<^verbatim>\<open>datetime\<close> is its date and the microseconds since midnight.
\<close>

type_synonym date = int

record datetime =
  dt_date :: date
  dt_micros :: nat

datatype error = TypeError | KeyError | OverflowError | ValueError

definition date_min :: date where
  "date_min = 1"

definition date_max :: date where
  "date_max = 3652059"

text \<open>\<^verbatim>\<open>d + timedelta(days=n)\<close>: OverflowError when the result leaves the range of dates.\<close>

definition date_add :: "date \<Rightarrow> int \<Rightarrow> error + date" where
  "date_add d n = (if date_min \<le> d + n \<and> d + n \<le> date_max then Inr (d + n) else Inl OverflowError)"

text \<open>\<^verbatim>\<open>d - timedelta(days=n)\<close>.\<close>

definition date_sub :: "date \<Rightarrow> int \<Rightarrow> error + date" where
  "date_sub d n = (if date_min \<le> d - n \<and> d - n \<le> date_max then Inr (d - n) else Inl OverflowError)"

subsection \<open>The Task model (app.py, lines 14-21)\<close>

record Task =
  task_id :: nat
  task :: string
  completed :: bool
  priority :: string
  due_date :: "date option"
  created_at :: datetime
  completed_at :: "datetime option"

subsection \<open>Python's sorted with a key\<close>

text \<open>
  \<^verbatim>\<open>sorted(xs, key=f)\<close> first calls \<^verbatim>\<open>f\<close> on every element, left to right, then sorts
  the elements by their keys, comparing keys with \<^verbatim>\<open><\<close> only; the sort is stable, and an
  exception raised by \<^verbatim>\<open>f\<close> or by \<^verbatim>\<open><\<close> leaves \<^verbatim>\<open>sorted\<close>. The model is the
  insertion sort CPython runs on short lists: each element in turn goes into the sorted
  prefix, after the elements that are not greater.
\<close>

fun compute_keys :: "('a \<Rightarrow> error + 'k) \<Rightarrow> 'a list \<Rightarrow> error + ('k \<times> 'a) list" where
  "compute_keys key [] = Inr []"
| "compute_keys key (x # xs) =
     (case key x of
        Inl e \<Rightarrow> Inl e
      | Inr k \<Rightarrow> (case compute_keys key xs of
                   Inl e \<Rightarrow> Inl e
                 | Inr kxs \<Rightarrow> Inr ((k, x) # kxs)))"

fun insert_sorted :: "('k \<Rightarrow> 'k \<Rightarrow> error + bool) \<Rightarrow> 'k \<times> 'a \<Rightarrow> ('k \<times> 'a) list
    \<Rightarrow> error + ('k \<times> 'a) list" where
  "insert_sorted lt kx [] = Inr [kx]"
| "insert_sorted lt kx (ky # rest) =
     (case lt (fst kx) (fst ky) of
        Inl e \<Rightarrow> Inl e
      | Inr True \<Rightarrow> Inr (kx # ky # rest)
      | Inr False \<Rightarrow> (case insert_sorted lt kx rest of
                       Inl e \<Rightarrow> Inl e
                     | Inr r \<Rightarrow> Inr (ky # r)))"

fun sort_pairs :: "('k \<Rightarrow> 'k \<Rightarrow> error + bool) \<Rightarrow> ('k \<times> 'a) list \<Rightarrow> ('k \<times> 'a) list
    \<Rightarrow> error + ('k \<times> 'a) list" where
  "sort_pairs lt acc [] = Inr acc"
| "sort_pairs lt acc (kx # rest) =
     (case insert_sorted lt kx acc of
        Inl e \<Rightarrow> Inl e
      | Inr acc' \<Rightarrow> sort_pairs lt acc' rest)"

definition sorted_py :: "('k \<Rightarrow> 'k \<Rightarrow> error + bool) \<Rightarrow> ('a \<Rightarrow> error + 'k) \<Rightarrow> 'a list
    \<Rightarrow> error + 'a list" where
  "sorted_py lt key xs =
     (case compute_keys key xs of
        Inl e \<Rightarrow> Inl e
      | Inr kxs \<Rightarrow> (case sort_pairs lt [] kxs of
                     Inl e \<Rightarrow> Inl e
                   | Inr r \<Rightarrow> Inr (map snd r)))"

text \<open>
  Comparison of two 2-tuples with \<^verbatim>\<open><\<close>: the first position where the items are not
  \<^verbatim>\<open>==\<close> decides, by the items' own \<^verbatim>\<open><\<close>; tuples equal at both positions are not less.
\<close>

definition tuple_lt :: "('a \<Rightarrow> 'a \<Rightarrow> bool) \<Rightarrow> ('a \<Rightarrow> 'a \<Rightarrow> error + bool) \<Rightarrow>
    ('b \<Rightarrow> 'b \<Rightarrow> bool) \<Rightarrow> ('b \<Rightarrow> 'b \<Rightarrow> error + bool) \<Rightarrow> 'a \<times> 'b \<Rightarrow> 'a \<times> 'b \<Rightarrow> error + bool" where
  "tuple_lt eq1 lt1 eq2 lt2 x y =
     (if \<not> eq1 (fst x) (fst y) then lt1 (fst x) (fst y)
      else if \<not> eq2 (snd x) (snd y) then lt2 (snd x) (snd y)
      else Inr False)"

definition int_lt :: "int \<Rightarrow> int \<Rightarrow> error + bool" where
  "int_lt a b = Inr (a < b)"

definition nat_lt :: "nat \<Rightarrow> nat \<Rightarrow> error + bool" where
  "nat_lt a b = Inr (a < b)"

text \<open>\<^verbatim>\<open>bool\<close> is a subclass of \<^verbatim>\<open>int\<close>: \<^verbatim>\<open>False < True\<close>.\<close>

definition bool_lt :: "bool \<Rightarrow> bool \<Rightarrow> error + bool" where
  "bool_lt a b = Inr (\<not> a \<and> b)"

text \<open>
  The first item of the due-date sort key, \<^verbatim>\<open>t.due_date or '9999-12-31'\<close>, is a date or
  a string. A date and a string are never \<^verbatim>\<open>==\<close>, and \<^verbatim>\<open><\<close> between them raises
  TypeError; strings compare lexicographically.
\<close>

datatype date_or_str = D date | S string

definition is_date :: "date_or_str \<Rightarrow> bool" where
  "is_date k = (case k of D d \<Rightarrow> True | S x \<Rightarrow> False)"

fun date_or_str_lt :: "date_or_str \<Rightarrow> date_or_str \<Rightarrow> error + bool" where
  "date_or_str_lt (D a) (D b) = Inr (a < b)"
| "date_or_str_lt (S a) (S b) = Inr (a < b)"
| "date_or_str_lt (D a) (S b) = Inl TypeError"
| "date_or_str_lt (S a) (D b) = Inl TypeError"

subsection \<open>index: filtering and sorting (app.py, lines 25-44)\<close>

definition priority_order :: "string \<rightharpoonup> int" where
  "priority_order = [''High'' \<mapsto> 1, ''Medium'' \<mapsto> 2, ''Low'' \<mapsto> 3]"

text \<open>\<^verbatim>\<open>(priority_order[t.priority], t.completed)\<close>: KeyError for a priority not in the dict.\<close>

definition priority_key :: "Task \<Rightarrow> error + (int \<times> bool)" where
  "priority_key t =
     (case priority_order (priority t) of
        None \<Rightarrow> Inl KeyError
      | Some r \<Rightarrow> Inr (r, completed t))"

text \<open>\<^verbatim>\<open>(t.due_date or '9999-12-31', t.completed)\<close>: a date is always truthy.\<close>

definition due_date_key :: "Task \<Rightarrow> error + (date_or_str \<times> bool)" where
  "due_date_key t =
     Inr (case due_date t of Some d \<Rightarrow> D d | None \<Rightarrow> S ''9999-12-31'', completed t)"

definition created_key :: "Task \<Rightarrow> error + nat" where
  "created_key t = Inr (task_id t)"

text \<open>
  \<^verbatim>\<open>str.strip()\<close>, a character being its code point, below 256: the whitespace
  characters (\<^verbatim>\<open>str.isspace\<close>) are tab, line feed, vertical tab, form feed, carriage
  return, the four separators 0x1C-0x1F, the space, the next-line control 0x85 and the
  no-break space 0xA0.
\<close>

definition isspace :: "char \<Rightarrow> bool" where
  "isspace c = (of_char c \<in> {9, 10, 11, 12, 13, 28, 29, 30, 31, 32, 133, 160 :: nat})"

definition strip :: "string \<Rightarrow> string" where
  "strip s = rev (dropWhile isspace (rev (dropWhile isspace s)))"

text \<open>
  The status filter and the search filter of the query; \<^verbatim>\<open>ilike\<close> is the database's
  case-insensitive LIKE, a parameter.
\<close>

definition index_query :: "(string \<Rightarrow> string \<Rightarrow> bool) \<Rightarrow> string \<Rightarrow> string \<Rightarrow> Task list \<Rightarrow> Task list" where
  "index_query ilike status search_arg rows =
     (let search = strip search_arg;
          q1 = (if status = ''completed'' then filter (\<lambda>t. completed t) rows
                else if status = ''pending'' then filter (\<lambda>t. \<not> completed t) rows
                else rows)
      in if search \<noteq> [] then filter (\<lambda>t. ilike (task t) (''%'' @ search @ ''%'')) q1 else q1)"

text \<open>The sort of the listing, on the rows the query returns.\<close>

definition index_sort :: "string \<Rightarrow> Task list \<Rightarrow> error + Task list" where
  "index_sort sort_arg q =
     (if sort_arg = ''priority'' then
        sorted_py (tuple_lt (=) int_lt (=) bool_lt) priority_key q
      else if sort_arg = ''due_date'' then
        sorted_py (tuple_lt (=) date_or_str_lt (=) bool_lt) due_date_key q
      else if sort_arg = ''created'' then
        sorted_py nat_lt created_key q
      else Inr q)"

subsection \<open>index: notification buckets (app.py, lines 48-53)\<close>

record notifications =
  overdue_tasks :: "Task list"
  due_today_tasks :: "Task list"
  due_soon_tasks :: "Task list"

text \<open>
  \<^verbatim>\<open>t.due_date and ...\<close>: a task without a due date is in no bucket. The threshold
  \<^verbatim>\<open>today_date + timedelta(days=1)\<close> is computed before the buckets.
\<close>

definition index_notifications :: "date \<Rightarrow> Task list \<Rightarrow> error + notifications" where
  "index_notifications today_date rows =
     (case date_add today_date 1 of
        Inl e \<Rightarrow> Inl e
      | Inr soon_threshold \<Rightarrow>
          (let pending_tasks = filter (\<lambda>t. \<not> completed t) rows
           in Inr \<lparr>overdue_tasks =
                     filter (\<lambda>t. case due_date t of None \<Rightarrow> False
                                  | Some d \<Rightarrow> d < today_date) pending_tasks,
                   due_today_tasks =
                     filter (\<lambda>t. case due_date t of None \<Rightarrow> False
                                  | Some d \<Rightarrow> d = today_date) pending_tasks,
                   due_soon_tasks =
                     filter (\<lambda>t. case due_date t of None \<Rightarrow> False
                                  | Some d \<Rightarrow> today_date < d \<and> d \<le> soon_threshold) pending_tasks\<rparr>))"

subsection \<open>The store, the session and the responses\<close>

text \<open>
  \<^verbatim>\<open>table\<close> holds the committed rows of the task table, in rowid order; \<^verbatim>\<open>work\<close>
  is what the request's database session sees: the rows with the changes the handler has
  made and not yet committed. \<^verbatim>\<open>db.session.commit()\<close> writes the session's rows to the
  table; when the request ends, Flask-SQLAlchemy removes the session, which drops every
  change that was not committed. \<^verbatim>\<open>flashes\<close> are the messages of \<^verbatim>\<open>flash\<close>, each with
  its category.
\<close>

record app =
  table :: "Task list"
  work :: "Task list"
  flashes :: "(string \<times> string) list"

datatype endpoint = Index | Edit nat

datatype response =
    Redirect endpoint
  | Render string
  | NotFound
  | BadRequest
  | ServerError error

datatype http_method = GET | POST

definition commit :: "app \<Rightarrow> app" where
  "commit s = s\<lparr>table := work s\<rparr>"

definition teardown :: "app \<Rightarrow> app" where
  "teardown s = s\<lparr>work := table s\<rparr>"

definition flash :: "string \<Rightarrow> string \<Rightarrow> app \<Rightarrow> app" where
  "flash message category s = s\<lparr>flashes := flashes s @ [(message, category)]\<rparr>"

text \<open>One request: the handler runs on the session, then the session is removed.\<close>

definition request :: "(app \<Rightarrow> app \<times> response) \<Rightarrow> app \<Rightarrow> app \<times> response" where
  "request handler s = (case handler s of (s', r) \<Rightarrow> (teardown s', r))"

text \<open>\<^verbatim>\<open>Task.query.get_or_404(id)\<close>: the row with this primary key, or None for the 404.\<close>

definition get_or_404 :: "Task list \<Rightarrow> nat \<Rightarrow> Task option" where
  "get_or_404 rows i = find (\<lambda>t. task_id t = i) rows"

text \<open>An attribute assignment on a loaded row: the session's row with that key is replaced.\<close>

definition set_row :: "Task \<Rightarrow> Task list \<Rightarrow> Task list" where
  "set_row t' rows = map (\<lambda>t. if task_id t = task_id t' then t' else t) rows"

text \<open>
  The key SQLite gives to an inserted row of an INTEGER PRIMARY KEY table: one more than
  the largest key in the table, 1 in an empty table.
\<close>

definition next_id :: "Task list \<Rightarrow> nat" where
  "next_id rows = fold max (map task_id rows) 0 + 1"

text \<open>The truth value of \<^verbatim>\<open>request.form.get(name)\<close>: a field that is present and not empty.\<close>

definition truthy :: "string option \<Rightarrow> bool" where
  "truthy v = (case v of None \<Rightarrow> False | Some x \<Rightarrow> x \<noteq> [])"

subsection \<open>add (app.py, lines 80-100)\<close>

text \<open>
  \<^verbatim>\<open>strptime\<close> stands for \<^verbatim>\<open>datetime.strptime(_, '%Y-%m-%d').date()\<close>, with ValueError
  for a string that is not a date; \<^verbatim>\<open>today\<close> is \<^verbatim>\<open>date.today()\<close> and \<^verbatim>\<open>utcnow\<close> is
  \<^verbatim>\<open>datetime.utcnow()\<close>. A missing key of \<^verbatim>\<open>request.form[...]\<close> is a 400 response; an
  exception that leaves the handler is a 500 response. A new row gets the column
  defaults: not completed, no completion time.
\<close>

definition add_row :: "string \<Rightarrow> string \<Rightarrow> date option \<Rightarrow> datetime \<Rightarrow> app \<Rightarrow> app \<times> response" where
  "add_row task_content pr due utcnow s =
     (if task_content \<noteq> [] then
        (let new_task = \<lparr>task_id = next_id (work s), task = task_content, completed = False,
                          priority = pr, due_date = due, created_at = utcnow,
                          completed_at = None\<rparr>
         in (commit (s\<lparr>work := work s @ [new_task]\<rparr>), Redirect Index))
      else (s, Redirect Index))"

definition add :: "(string \<Rightarrow> error + date) \<Rightarrow> date \<Rightarrow> datetime \<Rightarrow> (string \<rightharpoonup> string)
    \<Rightarrow> app \<Rightarrow> app \<times> response" where
  "add strptime today utcnow form s =
     (case form ''task'' of
        None \<Rightarrow> (s, BadRequest)
      | Some task_content \<Rightarrow>
          (case form ''priority'' of
             None \<Rightarrow> (s, BadRequest)
           | Some pr \<Rightarrow>
               if truthy (form ''due_date'') then
                 (case strptime (the (form ''due_date'')) of
                    Inl e \<Rightarrow> (s, ServerError e)
                  | Inr d \<Rightarrow>
                      if d < today then
                        (flash ''Due date cannot be in the past!'' ''danger'' s,
                         Redirect Index)
                      else add_row task_content pr (Some d) utcnow s)
               else add_row task_content pr None utcnow s))"

subsection \<open>complete and delete (app.py, lines 105-121)\<close>

definition complete :: "datetime \<Rightarrow> nat \<Rightarrow> app \<Rightarrow> app \<times> response" where
  "complete utcnow i s =
     (case get_or_404 (work s) i of
        None \<Rightarrow> (s, NotFound)
      | Some t \<Rightarrow>
          (let t1 = t\<lparr>completed := \<not> completed t\<rparr>;
               t2 = (if completed t1 then t1\<lparr>completed_at := Some utcnow\<rparr>
                     else t1\<lparr>completed_at := None\<rparr>)
           in (commit (s\<lparr>work := set_row t2 (work s)\<rparr>), Redirect Index)))"

definition delete :: "nat \<Rightarrow> app \<Rightarrow> app \<times> response" where
  "delete i s =
     (case get_or_404 (work s) i of
        None \<Rightarrow> (s, NotFound)
      | Some t \<Rightarrow>
          (commit (s\<lparr>work := filter (\<lambda>u. task_id u \<noteq> task_id t) (work s)\<rparr>),
           Redirect Index))"

subsection \<open>edit (app.py, lines 123-146)\<close>

text \<open>
  The handler assigns the text and the priority to the session's row before it looks at
  the due date; only \<^verbatim>\<open>db.session.commit()\<close>, on the accepting path, writes the row.
\<close>

definition edit_commit :: "Task \<Rightarrow> app \<Rightarrow> app \<times> response" where
  "edit_commit t s =
     (flash ''Task updated successfully!'' ''success'' (commit (s\<lparr>work := set_row t (work s)\<rparr>)),
      Redirect Index)"

definition edit :: "(string \<Rightarrow> error + date) \<Rightarrow> date \<Rightarrow> http_method \<Rightarrow> nat \<Rightarrow> (string \<rightharpoonup> string)
    \<Rightarrow> app \<Rightarrow> app \<times> response" where
  "edit strptime today req_method task_id' form s =
     (case get_or_404 (work s) task_id' of
        None \<Rightarrow> (s, NotFound)
      | Some t \<Rightarrow>
          if req_method = POST then
            (case form ''task'' of
               None \<Rightarrow> (s, BadRequest)
             | Some tx \<Rightarrow>
                 (let t1 = t\<lparr>task := tx\<rparr>;
                      s1 = s\<lparr>work := set_row t1 (work s)\<rparr>
                  in case form ''priority'' of
                       None \<Rightarrow> (s1, BadRequest)
                     | Some pr \<Rightarrow>
                         (let t2 = t1\<lparr>priority := pr\<rparr>;
                              s2 = s1\<lparr>work := set_row t2 (work s1)\<rparr>
                          in if truthy (form ''due_date'') then
                               (case strptime (the (form ''due_date'')) of
                                  Inl e \<Rightarrow> (s2, ServerError e)
                                | Inr d \<Rightarrow>
                                    if d < today then
                                      (flash ''Due date cannot be in the past!'' ''danger'' s2,
                                       Redirect (Edit task_id'))
                                    else edit_commit (t2\<lparr>due_date := Some d\<rparr>) s2)
                             else edit_commit (t2\<lparr>due_date := None\<rparr>) s2)))
          else (s, Render ''edit.html''))"

subsection \<open>dashboard: the completion streak (app.py, lines 164-182)\<close>

text \<open>\<^verbatim>\<open>[today - timedelta(days=i) for i in range(6, -1, -1)]\<close>, oldest day first.\<close>

fun dates_back :: "date \<Rightarrow> int list \<Rightarrow> error + date list" where
  "dates_back today [] = Inr []"
| "dates_back today (i # is) =
     (case date_sub today i of
        Inl e \<Rightarrow> Inl e
      | Inr d \<Rightarrow> (case dates_back today is of
                   Inl e \<Rightarrow> Inl e
                 | Inr ds \<Rightarrow> Inr (d # ds)))"

definition last_7_days :: "date \<Rightarrow> error + date list" where
  "last_7_days today = dates_back today [6, 5, 4, 3, 2, 1, 0]"

text \<open>\<^verbatim>\<open>collections.Counter\<close> of a sequence, and \<^verbatim>\<open>counter.get(key, 0)\<close>.\<close>

definition Counter :: "'a list \<Rightarrow> ('a \<rightharpoonup> nat)" where
  "Counter xs = fold (\<lambda>x m. m(x \<mapsto> (case m x of None \<Rightarrow> 1 | Some c \<Rightarrow> c + 1))) xs Map.empty"

definition get_or_0 :: "('a \<rightharpoonup> nat) \<Rightarrow> 'a \<Rightarrow> nat" where
  "get_or_0 m k = (case m k of None \<Rightarrow> 0 | Some c \<Rightarrow> c)"

text \<open>
  \<^verbatim>\<open>Counter(t.completed_at.date() for t in completions if t.completed_at)\<close> over the rows
  with \<^verbatim>\<open>completed_at != None\<close>; a datetime is always truthy.
\<close>

definition completions_per_day :: "Task list \<Rightarrow> (date \<rightharpoonup> nat)" where
  "completions_per_day rows =
     (let completions = filter (\<lambda>t. completed_at t \<noteq> None) rows
      in Counter (List.map_filter (\<lambda>t. map_option dt_date (completed_at t)) completions))"

text \<open>The loop over \<^verbatim>\<open>reversed(last_7_days)\<close>, with its \<^verbatim>\<open>break\<close>.\<close>

fun streak_loop :: "(date \<rightharpoonup> nat) \<Rightarrow> date list \<Rightarrow> nat \<Rightarrow> nat" where
  "streak_loop cpd [] streak = streak"
| "streak_loop cpd (day # days) streak =
     (if get_or_0 cpd day > 0 then streak_loop cpd days (streak + 1) else streak)"

definition dashboard_streak :: "date \<Rightarrow> Task list \<Rightarrow> error + nat" where
  "dashboard_streak today rows =
     (case last_7_days today of
        Inl e \<Rightarrow> Inl e
      | Inr days \<Rightarrow> Inr (streak_loop (completions_per_day rows) (rev days) 0))"

subsection \<open>incomplete_tasks: the sort (app.py, lines 241, 278-279)\<close>

text \<open>\<^verbatim>\<open>(priority_order.get(t.priority, 4), t.due_date or date.max)\<close>.\<close>

definition incomplete_key :: "Task \<Rightarrow> error + (int \<times> date)" where
  "incomplete_key t =
     Inr (case priority_order (priority t) of None \<Rightarrow> 4 | Some r \<Rightarrow> r,
          case due_date t of Some d \<Rightarrow> d | None \<Rightarrow> date_max)"

definition incomplete_tasks_sort :: "Task list \<Rightarrow> error + Task list" where
  "incomplete_tasks_sort rows =
     (let incomplete_tasks = filter (\<lambda>t. \<not> completed t) rows
      in if incomplete_tasks = [] then Inr []
         else sorted_py (tuple_lt (=) int_lt (=) int_lt) incomplete_key incomplete_tasks)"

subsection \<open>Predicates of the specification\<close>

text \<open>The invariant of the data model: a completion time exactly on the completed rows.\<close>

definition task_ok :: "Task \<Rightarrow> bool" where
  "task_ok t = ((completed_at t \<noteq> None) = completed t)"

definition store_ok :: "app \<Rightarrow> bool" where
  "store_ok s = list_all task_ok (table s)"

text \<open>Between two requests the session holds no change: it sees the committed rows.\<close>

definition idle :: "app \<Rightarrow> bool" where
  "idle s = (work s = table s)"

definition initial :: app where
  "initial = \<lparr>table = [], work = [], flashes = []\<rparr>"

text \<open>The states the store reaches from the empty table by requests to the four routes that write.\<close>

inductive reachable :: "app \<Rightarrow> bool" where
  reach_initial: "reachable initial"
| reach_add: "reachable s \<Longrightarrow> reachable (fst (request (add strptime today utcnow form) s))"
| reach_complete: "reachable s \<Longrightarrow> reachable (fst (request (complete utcnow i) s))"
| reach_delete: "reachable s \<Longrightarrow> reachable (fst (request (delete i) s))"
| reach_edit: "reachable s \<Longrightarrow> reachable (fst (request (edit strptime today req_method i form) s))"

text \<open>Every element that satisfies \<open>P\<close> stands before every element that satisfies \<open>Q\<close>.\<close>

definition all_before :: "('a \<Rightarrow> bool) \<Rightarrow> ('a \<Rightarrow> bool) \<Rightarrow> 'a list \<Rightarrow> bool" where
  "all_before P Q xs = (\<forall>i < length xs. \<forall>j < length xs. P (xs ! i) \<and> Q (xs ! j) \<longrightarrow> i < j)"

text \<open>The number of rows completed on a day, as the specification counts completions.\<close>

definition completions_on :: "Task list \<Rightarrow> date \<Rightarrow> nat" where
  "completions_on rows d = length (filter (\<lambda>t. map_option dt_date (completed_at t) = Some d) rows)"

subsection \<open>Sample rows\<close>

text \<open>A row for the concrete instances: created on 2025-01-01, completed (if it is) the day after.\<close>

definition sample :: "nat \<Rightarrow> string \<Rightarrow> bool \<Rightarrow> date option \<Rightarrow> Task" where
  "sample i p c due =
     \<lparr>task_id = i, task = ''write report'', completed = c, priority = p, due_date = due,
      created_at = \<lparr>dt_date = 739252, dt_micros = 0\<rparr>,
      completed_at = (if c then Some \<lparr>dt_date = 739253, dt_micros = 0\<rparr> else None)\<rparr>"

definition sample_strptime :: "string \<Rightarrow> error + date" where
  "sample_strptime ds =
     (if ds = ''2024-12-31'' then Inr 739251
      else if ds = ''2025-01-01'' then Inr 739252
      else if ds = ''2025-01-02'' then Inr 739253
      else Inl ValueError)"

definition sample_now :: datetime where
  "sample_now = \<lparr>dt_date = 739252, dt_micros = 43200000000\<rparr>"

definition sample_store :: app where
  "sample_store =
     \<lparr>table = [sample 1 ''High'' False (Some 739260), sample 2 ''Low'' True None],
      work = [sample 1 ''High'' False (Some 739260), sample 2 ''Low'' True None],
      flashes = []\<rparr>"

section \<open>Lemmas on the model of sorted\<close>

lemma compute_keys_total:
  "\<forall>x\<in>set xs. key x = Inr (k x) \<Longrightarrow> compute_keys key xs = Inr (map (\<lambda>x. (k x, x)) xs)"
  by (induction xs) simp_all

lemma insert_sorted_total:
  fixes m :: "'k \<Rightarrow> 'o::linorder"
  assumes lt: "\<And>a b. lt a b = Inr (m a < m b)"
    and srt: "sorted (map (\<lambda>p. m (fst p)) acc)"
  shows "\<exists>r. insert_sorted lt kx acc = Inr r \<and> mset r = add_mset kx (mset acc)
           \<and> sorted (map (\<lambda>p. m (fst p)) r)"
  using srt
proof (induction acc)
  case Nil
  then show ?case by simp
next
  case (Cons ky rest)
  show ?case
  proof (cases "m (fst kx) < m (fst ky)")
    case True
    then have "lt (fst kx) (fst ky) = Inr True" by (simp add: lt)
    with True Cons.prems show ?thesis by auto
  next
    case False
    from Cons.prems have "sorted (map (\<lambda>p. m (fst p)) rest)" by simp
    from Cons.IH [OF this] obtain r where r: "insert_sorted lt kx rest = Inr r"
      "mset r = add_mset kx (mset rest)" "sorted (map (\<lambda>p. m (fst p)) r)" by blast
    have "set r = insert kx (set rest)"
      using r(2) by (metis set_mset_add_mset_insert set_mset_mset)
    moreover from False have "lt (fst kx) (fst ky) = Inr False" by (simp add: lt)
    ultimately show ?thesis using False Cons.prems r by auto
  qed
qed

lemma sort_pairs_total:
  fixes m :: "'k \<Rightarrow> 'o::linorder"
  assumes lt: "\<And>a b. lt a b = Inr (m a < m b)"
    and srt: "sorted (map (\<lambda>p. m (fst p)) acc)"
  shows "\<exists>r. sort_pairs lt acc kxs = Inr r \<and> mset r = mset acc + mset kxs
           \<and> sorted (map (\<lambda>p. m (fst p)) r)"
  using srt
proof (induction kxs arbitrary: acc)
  case Nil
  then show ?case by simp
next
  case (Cons kx rest)
  from insert_sorted_total [of lt m acc kx, OF lt Cons.prems]
  obtain a where a: "insert_sorted lt kx acc = Inr a" "mset a = add_mset kx (mset acc)"
    "sorted (map (\<lambda>p. m (fst p)) a)" by blast
  from Cons.IH [OF a(3)] obtain r where "sort_pairs lt a rest = Inr r"
    "mset r = mset a + mset rest" "sorted (map (\<lambda>p. m (fst p)) r)" by blast
  with a show ?case by simp
qed

lemma sorted_py_total:
  fixes m :: "'k \<Rightarrow> 'o::linorder"
  assumes lt: "\<And>a b. lt a b = Inr (m a < m b)"
    and key: "\<forall>x\<in>set xs. key x = Inr (k x)"
  shows "\<exists>ys. sorted_py lt key xs = Inr ys \<and> mset ys = mset xs \<and> sorted (map (\<lambda>x. m (k x)) ys)"
proof -
  let ?kxs = "map (\<lambda>x. (k x, x)) xs"
  have ck: "compute_keys key xs = Inr ?kxs" using key by (rule compute_keys_total)
  from sort_pairs_total [of lt m "[]" ?kxs, OF lt]
  obtain r where r: "sort_pairs lt [] ?kxs = Inr r" "mset r = mset ?kxs"
    "sorted (map (\<lambda>p. m (fst p)) r)" by auto
  have "set r = set ?kxs" using r(2) by (metis set_mset_mset)
  then have fs: "\<forall>p\<in>set r. fst p = k (snd p)" by auto
  have "map (\<lambda>p. m (fst p)) r = map (\<lambda>x. m (k x)) (map snd r)"
    using fs by (induction r) auto
  with r(3) have s: "sorted (map (\<lambda>x. m (k x)) (map snd r))" by simp
  have "mset (map snd r) = mset xs"
  proof -
    have "mset (map snd r) = image_mset snd (mset r)" by simp
    also have "\<dots> = image_mset snd (mset ?kxs)" by (simp only: r(2))
    also have "\<dots> = mset xs" by (simp add: image_mset.compositionality comp_def)
    finally show ?thesis .
  qed
  with ck r(1) s show ?thesis by (simp add: sorted_py_def)
qed

lemma sorted_all_before:
  fixes f :: "'a \<Rightarrow> 'o::linorder"
  assumes "sorted (map f ys)" and "\<And>x y. P x \<Longrightarrow> Q y \<Longrightarrow> f x < f y"
  shows "all_before P Q ys"
  unfolding all_before_def
proof (intro allI impI)
  fix i j
  assume i: "i < length ys" and j: "j < length ys" and pq: "P (ys ! i) \<and> Q (ys ! j)"
  show "i < j"
  proof (rule ccontr)
    assume "\<not> i < j"
    then have "j \<le> i" by simp
    with assms(1) i have "map f ys ! j \<le> map f ys ! i"
      by (simp add: sorted_iff_nth_mono del: nth_map)
    with i j have "f (ys ! j) \<le> f (ys ! i)" by simp
    moreover from pq assms(2) have "f (ys ! i) < f (ys ! j)" by blast
    ultimately show False by simp
  qed
qed

lemma tuple_lt_int_bool: "tuple_lt (=) int_lt (=) bool_lt x y = Inr (x < y)"
  by (cases x; cases y) (auto simp: tuple_lt_def int_lt_def bool_lt_def less_prod_def)

lemma tuple_lt_int_int: "tuple_lt (=) int_lt (=) int_lt x y = Inr (x < y)"
  by (cases x; cases y) (auto simp: tuple_lt_def int_lt_def less_prod_def)

lemma priority_order_cases:
  "priority_order p = (if p = ''High'' then Some 1 else if p = ''Medium'' then Some 2
     else if p = ''Low'' then Some 3 else None)"
  by (simp add: priority_order_def)

lemma compute_keys_error:
  assumes "x \<in> set xs" and "key x = Inl e" and "\<And>y e'. key y = Inl e' \<Longrightarrow> e' = e"
  shows "compute_keys key xs = Inl e"
  using assms(1,2)
proof (induction xs)
  case Nil
  then show ?case by simp
next
  case (Cons y ys)
  show ?case
  proof (cases "key y")
    case (Inl e')
    with assms(3) show ?thesis by simp
  next
    case (Inr k)
    with Cons have "x \<in> set ys" by auto
    with Cons Inr show ?thesis by simp
  qed
qed

lemma due_lt_mixed:
  "is_date (fst a) \<noteq> is_date (fst b) \<Longrightarrow> tuple_lt (=) date_or_str_lt (=) bool_lt a b = Inl TypeError"
  by (cases "fst a"; cases "fst b") (auto simp: tuple_lt_def is_date_def)

lemma due_lt_same:
  "is_date (fst a) = is_date (fst b) \<Longrightarrow> \<exists>r. tuple_lt (=) date_or_str_lt (=) bool_lt a b = Inr r"
  by (cases "fst a"; cases "fst b") (auto simp: tuple_lt_def is_date_def bool_lt_def)

lemma insert_sorted_mixed:
  assumes "acc \<noteq> []" and "\<forall>p\<in>set acc. is_date (fst (fst p)) \<noteq> is_date (fst (fst kx))"
  shows "insert_sorted (tuple_lt (=) date_or_str_lt (=) bool_lt) kx acc = Inl TypeError"
proof (cases acc)
  case Nil
  with assms(1) show ?thesis by simp
next
  case (Cons ky rest)
  with assms(2) have "is_date (fst (fst kx)) \<noteq> is_date (fst (fst ky))" by auto
  then have "tuple_lt (=) date_or_str_lt (=) bool_lt (fst kx) (fst ky) = Inl TypeError"
    by (rule due_lt_mixed)
  with Cons show ?thesis by simp
qed

lemma insert_sorted_same:
  assumes "\<forall>p\<in>set acc. is_date (fst (fst p)) = is_date (fst (fst kx))"
  shows "\<exists>r. insert_sorted (tuple_lt (=) date_or_str_lt (=) bool_lt) kx acc = Inr r \<and>
           set r = insert kx (set acc)"
  using assms
proof (induction acc)
  case Nil
  then show ?case by simp
next
  case (Cons ky rest)
  then have "is_date (fst (fst kx)) = is_date (fst (fst ky))" by simp
  from due_lt_same [OF this]
  obtain b where b: "tuple_lt (=) date_or_str_lt (=) bool_lt (fst kx) (fst ky) = Inr b" by blast
  from Cons obtain r where
    r: "insert_sorted (tuple_lt (=) date_or_str_lt (=) bool_lt) kx rest = Inr r"
      "set r = insert kx (set rest)" by auto
  show ?case using b r by (cases b) auto
qed

lemma sort_pairs_mixed:
  assumes "acc \<noteq> []" and "\<forall>p\<in>set acc. is_date (fst (fst p)) = c"
    and "\<exists>p\<in>set kxs. is_date (fst (fst p)) \<noteq> c"
  shows "sort_pairs (tuple_lt (=) date_or_str_lt (=) bool_lt) acc kxs = Inl TypeError"
  using assms
proof (induction kxs arbitrary: acc)
  case Nil
  then show ?case by simp
next
  case (Cons kx rest)
  show ?case
  proof (cases "is_date (fst (fst kx)) = c")
    case False
    with Cons.prems(2) have "\<forall>p\<in>set acc. is_date (fst (fst p)) \<noteq> is_date (fst (fst kx))" by auto
    from insert_sorted_mixed [OF Cons.prems(1) this] show ?thesis by simp
  next
    case True
    with Cons.prems(2) have "\<forall>p\<in>set acc. is_date (fst (fst p)) = is_date (fst (fst kx))" by auto
    from insert_sorted_same [OF this] obtain r where
      r: "insert_sorted (tuple_lt (=) date_or_str_lt (=) bool_lt) kx acc = Inr r"
        "set r = insert kx (set acc)" by blast
    have 1: "r \<noteq> []" using r(2) by auto
    have 2: "\<forall>p\<in>set r. is_date (fst (fst p)) = c" using r(2) True Cons.prems(2) by auto
    have 3: "\<exists>p\<in>set rest. is_date (fst (fst p)) \<noteq> c" using Cons.prems(3) True by auto
    from Cons.IH [OF 1 2 3] r(1) show ?thesis by simp
  qed
qed

section \<open>Lemmas on the notification buckets and the streak\<close>

lemma date_add_ok: "date_min \<le> today \<Longrightarrow> today < date_max \<Longrightarrow> date_add today 1 = Inr (today + 1)"
  by (simp add: date_add_def date_min_def)

lemma fold_bump_get:
  "get_or_0 (fold (\<lambda>x m. m(x \<mapsto> (case m x of None \<Rightarrow> 1 | Some c \<Rightarrow> c + 1))) xs m0) d
     = get_or_0 m0 d + count_list xs d"
  by (induction xs arbitrary: m0) (auto simp: get_or_0_def split: option.splits)

lemma Counter_get: "get_or_0 (Counter xs) d = count_list xs d"
  by (simp add: Counter_def fold_bump_get) (simp add: get_or_0_def)

lemma count_list_map_filter:
  "count_list (List.map_filter f xs) d = length (filter (\<lambda>x. f x = Some d) xs)"
  by (induction xs) (auto simp: List.map_filter_simps split: option.splits)

lemma completions_per_day_get:
  "get_or_0 (completions_per_day rows) d = completions_on rows d"
proof -
  have "filter (\<lambda>t. map_option dt_date (completed_at t) = Some d) (filter (\<lambda>t. completed_at t \<noteq> None) rows)
      = filter (\<lambda>t. map_option dt_date (completed_at t) = Some d) rows"
    by (induction rows) auto
  then show ?thesis
    by (simp add: completions_per_day_def completions_on_def Counter_get count_list_map_filter)
qed

lemma streak_loop_takeWhile:
  "streak_loop cpd days k = k + length (takeWhile (\<lambda>d. get_or_0 cpd d > 0) days)"
  by (induction days arbitrary: k) auto

lemma last_7_days_ok:
  assumes "date_min + 6 \<le> today" and "today \<le> date_max"
  shows "last_7_days today = Inr (map (\<lambda>i. today - int i) (rev [0..<7]))"
proof -
  have "date_sub today i = Inr (today - i)" if "0 \<le> i" "i \<le> 6" for i
    using that assms by (simp add: date_sub_def date_min_def)
  then show ?thesis
    by (simp add: last_7_days_def upt_rec [of _ "numeral _"] upt_rec [of _ "Suc _"])
qed

section \<open>Lemmas on the store and the handlers\<close>

lemma get_or_404_Some: "get_or_404 rows i = Some t \<Longrightarrow> t \<in> set rows \<and> task_id t = i"
  by (auto simp: get_or_404_def find_Some_iff)

lemma get_or_404_set_row_same:
  "get_or_404 rows i = Some t \<Longrightarrow> task_id t' = i \<Longrightarrow> get_or_404 (set_row t' rows) i = Some t'"
  by (induction rows) (auto simp: get_or_404_def set_row_def split: if_splits)

lemma get_or_404_set_row_other:
  "j \<noteq> task_id t' \<Longrightarrow> get_or_404 (set_row t' rows) j = get_or_404 rows j"
  by (induction rows) (auto simp: get_or_404_def set_row_def)

lemma length_set_row: "length (set_row t' rows) = length rows"
  by (simp add: set_row_def)

lemma list_all_set_row:
  "task_ok t' \<Longrightarrow> list_all task_ok rows \<Longrightarrow> list_all task_ok (set_row t' rows)"
  by (induction rows) (auto simp: set_row_def)

lemma request_fst: "fst (request h s) = teardown (fst (h s))"
  by (simp add: request_def split: prod.splits)

lemma request_snd: "snd (request h s) = snd (h s)"
  by (simp add: request_def split: prod.splits)

lemma idle_request: "idle (fst (request h s))"
  by (simp add: request_fst idle_def teardown_def)

lemma table_teardown: "table (teardown s) = table s"
  by (simp add: teardown_def)

lemma flashes_teardown: "flashes (teardown s) = flashes s"
  by (simp add: teardown_def)

lemma table_add_row:
  "table (fst (add_row tx pr due utcnow s)) =
     (if tx \<noteq> [] then work s @ [\<lparr>task_id = next_id (work s), task = tx, completed = False,
                          priority = pr, due_date = due, created_at = utcnow,
                          completed_at = None\<rparr>] else table s)"
  by (simp add: add_row_def commit_def Let_def)

lemma table_add_cases:
  "table (fst (add strptime today utcnow form s)) = table s \<or>
   (\<exists>tx pr due. form ''task'' = Some tx \<and> tx \<noteq> [] \<and>
      table (fst (add strptime today utcnow form s)) =
        work s @ [\<lparr>task_id = next_id (work s), task = tx, completed = False,
                          priority = pr, due_date = due, created_at = utcnow,
                          completed_at = None\<rparr>])"
  by (auto simp: add_def table_add_row flash_def split: option.splits sum.splits)

lemma add_store_ok:
  assumes "idle s" and "store_ok s"
  shows "store_ok (fst (request (add strptime today utcnow form) s))"
  using table_add_cases [of strptime today utcnow form s] assms
  by (auto simp: request_fst store_ok_def table_teardown idle_def task_ok_def)

lemma table_complete:
  "table (fst (complete utcnow i s)) =
     (case get_or_404 (work s) i of None \<Rightarrow> table s
      | Some t \<Rightarrow> set_row (if completed t then t\<lparr>completed := False, completed_at := None\<rparr>
                          else t\<lparr>completed := True, completed_at := Some utcnow\<rparr>) (work s))"
  by (simp add: complete_def commit_def Let_def split: option.splits)

lemma complete_store_ok:
  assumes "idle s" and "store_ok s"
  shows "store_ok (fst (request (complete utcnow i) s))"
  using assms
  by (auto simp: request_fst store_ok_def table_teardown table_complete idle_def task_ok_def
      intro!: list_all_set_row split: option.splits)

lemma table_delete:
  "table (fst (delete i s)) =
     (case get_or_404 (work s) i of None \<Rightarrow> table s
      | Some t \<Rightarrow> filter (\<lambda>u. task_id u \<noteq> task_id t) (work s))"
  by (simp add: delete_def commit_def split: option.splits)

lemma delete_store_ok:
  assumes "idle s" and "store_ok s"
  shows "store_ok (fst (request (delete i) s))"
  using assms
  by (auto simp: request_fst store_ok_def table_teardown table_delete idle_def list_all_iff
      split: option.splits)

lemma set_row_twice: "task_id t2 = task_id t1 \<Longrightarrow> set_row t2 (set_row t1 rows) = set_row t2 rows"
  by (induction rows) (auto simp: set_row_def)

lemma table_edit_commit: "table (fst (edit_commit t s)) = set_row t (work s)"
  by (simp add: edit_commit_def flash_def commit_def)

lemma table_edit_cases:
  "table (fst (edit strptime today req_method i form s)) = table s \<or>
   (\<exists>t tx pr due. get_or_404 (work s) i = Some t \<and> req_method = POST \<and> form ''task'' = Some tx \<and>
      form ''priority'' = Some pr \<and>
      table (fst (edit strptime today req_method i form s)) =
        set_row (t\<lparr>task := tx, priority := pr, due_date := due\<rparr>) (work s))"
proof (cases "get_or_404 (work s) i")
  case None
  then show ?thesis by (simp add: edit_def)
next
  case (Some t)
  show ?thesis
  proof (cases "req_method = POST")
    case False
    with Some show ?thesis by (simp add: edit_def)
  next
    case True
    show ?thesis
    proof (cases "form ''task''")
      case None
      with Some True show ?thesis by (simp add: edit_def)
    next
      case tx: (Some tx)
      show ?thesis
      proof (cases "form ''priority''")
        case None
        with Some True tx show ?thesis by (simp add: edit_def Let_def)
      next
        case pr: (Some pr)
        with Some True tx show ?thesis
          by (auto simp: edit_def Let_def table_edit_commit set_row_twice flash_def
              split: sum.splits)
      qed
    qed
  qed
qed

text \<open>
  On the rejecting path of edit the session's row already carries the new text and
  priority when the handler returns; the table does not.
\<close>

lemma edit_rejected_before_teardown:
  assumes "get_or_404 (work s) i = Some t"
    and "form ''task'' = Some tx" and "form ''priority'' = Some pr"
    and "form ''due_date'' = Some ds" and "ds \<noteq> []"
    and "strptime ds = Inr d" and "d < today"
  shows "work (fst (edit strptime today POST i form s)) =
       set_row (t\<lparr>task := tx, priority := pr\<rparr>) (work s) \<and>
     table (fst (edit strptime today POST i form s)) = table s"
  using assms
  by (simp add: edit_def Let_def truthy_def flash_def set_row_twice)

lemma edit_store_ok:
  assumes "idle s" and "store_ok s"
  shows "store_ok (fst (request (edit strptime today req_method i form) s))"
proof -
  from table_edit_cases [of strptime today req_method i form s]
  show ?thesis
  proof
    assume "table (fst (edit strptime today req_method i form s)) = table s"
    with assms show ?thesis by (simp add: request_fst store_ok_def table_teardown)
  next
    assume "\<exists>t tx pr due. get_or_404 (work s) i = Some t \<and> req_method = POST \<and> form ''task'' = Some tx \<and>
      form ''priority'' = Some pr \<and>
      table (fst (edit strptime today req_method i form s)) =
        set_row (t\<lparr>task := tx, priority := pr, due_date := due\<rparr>) (work s)"
    then obtain t tx pr due where t: "get_or_404 (work s) i = Some t"
      and tab: "table (fst (edit strptime today req_method i form s)) =
        set_row (t\<lparr>task := tx, priority := pr, due_date := due\<rparr>) (work s)" by blast
    from t have "t \<in> set (table s)" using assms(1) get_or_404_Some by (auto simp: idle_def)
    with assms(2) have "task_ok t" by (simp add: store_ok_def list_all_iff)
    then have "task_ok (t\<lparr>task := tx, priority := pr, due_date := due\<rparr>)" by (simp add: task_ok_def)
    then have "list_all task_ok (set_row (t\<lparr>task := tx, priority := pr, due_date := due\<rparr>) (work s))"
      using assms by (intro list_all_set_row) (simp_all add: store_ok_def idle_def)
    with tab show ?thesis by (simp add: request_fst store_ok_def table_teardown)
  qed
qed

lemma reachable_idle_ok: "reachable s \<Longrightarrow> idle s \<and> store_ok s"
proof (induction rule: reachable.induct)
  case reach_initial
  show ?case by (simp add: initial_def idle_def store_ok_def)
next
  case (reach_add s strptime today utcnow form)
  then show ?case by (simp add: idle_request add_store_ok)
next
  case (reach_complete s utcnow i)
  then show ?case by (simp add: idle_request complete_store_ok)
next
  case (reach_delete s i)
  then show ?case by (simp add: idle_request delete_store_ok)
next
  case (reach_edit s strptime today req_method i form)
  then show ?case by (simp add: idle_request edit_store_ok)
qed

section \<open>The claims\<close>

text \<open>
  C1: in every state the store reaches from the empty table, each stored task has a
  completion time exactly when it is completed; and each of add, complete, delete and edit,
  run as one request on a store that satisfies this, leaves a store that satisfies it.
\<close>

theorem completed_at_iff_completed:
  "(reachable s \<longrightarrow> store_ok s) \<and>
   (idle s \<and> store_ok s \<longrightarrow>
      store_ok (fst (request (add strptime today utcnow form) s)) \<and>
      store_ok (fst (request (complete utcnow i) s)) \<and>
      store_ok (fst (request (delete i) s)) \<and>
      store_ok (fst (request (edit strptime today req_method i form) s)))"
  using reachable_idle_ok add_store_ok complete_store_ok delete_store_ok edit_store_ok by blast

theorem completed_at_iff_completed_witness:
  "table (fst (request (complete sample_now 1)
       (fst (request (add sample_strptime 739252 sample_now
          [''task'' \<mapsto> ''buy milk'', ''priority'' \<mapsto> ''High'']) initial)))) =
     [\<lparr>task_id = 1, task = ''buy milk'', completed = True, priority = ''High'', due_date = None,
       created_at = sample_now, completed_at = Some sample_now\<rparr>] \<and>
   reachable (fst (request (complete sample_now 1)
       (fst (request (add sample_strptime 739252 sample_now
          [''task'' \<mapsto> ''buy milk'', ''priority'' \<mapsto> ''High'']) initial)))) \<and>
   store_ok (fst (request (complete sample_now 1)
       (fst (request (add sample_strptime 739252 sample_now
          [''task'' \<mapsto> ''buy milk'', ''priority'' \<mapsto> ''High'']) initial)))) \<and>
   store_ok (fst (request (add sample_strptime 739252 sample_now
          [''task'' \<mapsto> ''buy milk'', ''priority'' \<mapsto> ''High'']) initial))"
proof -
  let ?form = "[''task'' \<mapsto> ''buy milk'', ''priority'' \<mapsto> ''High'']"
  let ?s1 = "fst (request (add sample_strptime 739252 sample_now ?form) initial)"
  let ?s2 = "fst (request (complete sample_now 1) ?s1)"
  have t: "table ?s2 =
     [\<lparr>task_id = 1, task = ''buy milk'', completed = True, priority = ''High'', due_date = None,
       created_at = sample_now, completed_at = Some sample_now\<rparr>]"
    by (simp add: request_def add_def add_row_def truthy_def commit_def teardown_def initial_def
        next_id_def complete_def get_or_404_def set_row_def Let_def)
  have r: "reachable ?s2"
    by (intro reach_complete reach_add reach_initial)
  have i0: "idle initial \<and> store_ok initial" by (simp add: initial_def idle_def store_ok_def)
  from completed_at_iff_completed [of ?s2] r have ok2: "store_ok ?s2" by blast
  from completed_at_iff_completed [of initial sample_strptime 739252 sample_now ?form] i0
  have ok1: "store_ok ?s1" by blast
  from t r ok2 ok1 show ?thesis by blast
qed

text \<open>
  C2 (the code fails the claim): the listing sorted by due date raises TypeError as soon as
  the rows hold a task with a due date and a task without one, since the key of the first
  is a date and the key of the second the string 9999-12-31. The sort does not put the
  tasks without a due date last; it returns no list at all. The instance: one task due on
  2025-01-01 and one task without a due date.
\<close>

theorem index_sort_due_date_mixed:
  assumes "t1 \<in> set q" and "due_date t1 \<noteq> None" and "t2 \<in> set q" and "due_date t2 = None"
  shows "index_sort ''due_date'' q = Inl TypeError"
proof -
  define k where "k = (\<lambda>t::Task. (case due_date t of Some d \<Rightarrow> D d | None \<Rightarrow> S ''9999-12-31'', completed t))"
  let ?kxs = "map (\<lambda>t. (k t, t)) q"
  have ck: "compute_keys due_date_key q = Inr ?kxs"
    by (rule compute_keys_total) (simp add: due_date_key_def k_def)
  have k1: "is_date (fst (k t1))" using assms(2) by (auto simp: k_def is_date_def)
  have k2: "\<not> is_date (fst (k t2))" using assms(4) by (simp add: k_def is_date_def)
  from assms(1) obtain x rest where q: "q = x # rest" by (cases q) auto
  have ins: "insert_sorted (tuple_lt (=) date_or_str_lt (=) bool_lt) (k x, x) [] = Inr [(k x, x)]"
    by simp
  have "\<exists>p\<in>set (map (\<lambda>t. (k t, t)) rest). is_date (fst (fst p)) \<noteq> is_date (fst (k x))"
  proof (cases "is_date (fst (k x))")
    case True
    with k2 have "t2 \<noteq> x" by auto
    with assms(3) q have "t2 \<in> set rest" by simp
    with True k2 show ?thesis by auto
  next
    case False
    with k1 have "t1 \<noteq> x" by auto
    with assms(1) q have "t1 \<in> set rest" by simp
    with False k1 show ?thesis by auto
  qed
  then have "sort_pairs (tuple_lt (=) date_or_str_lt (=) bool_lt) [(k x, x)] (map (\<lambda>t. (k t, t)) rest)
      = Inl TypeError"
    by (intro sort_pairs_mixed [where c = "is_date (fst (k x))"]) auto
  with q have "sort_pairs (tuple_lt (=) date_or_str_lt (=) bool_lt) [] ?kxs = Inl TypeError"
    by simp
  with ck show ?thesis by (simp add: index_sort_def sorted_py_def)
qed

theorem index_sort_due_date_failing:
  "index_sort ''due_date'' [sample 1 ''Medium'' False (Some 739252), sample 2 ''Medium'' False None]
     = Inl TypeError"
  using index_sort_due_date_mixed
    [of "sample 1 ''Medium'' False (Some 739252)"
        "[sample 1 ''Medium'' False (Some 739252), sample 2 ''Medium'' False None]"
        "sample 2 ''Medium'' False None"]
  by (simp add: sample_def)

text \<open>
  C3: a POST to edit an existing task, with a due date that parses to a day before today,
  commits nothing, whatever else the form holds: the table is the same as before, and the
  task has its old text, priority and due date, although the handler had assigned the new
  text and priority to the session's row. When the form has its text and priority, the
  request flashes the message and redirects to the edit form of the task; when one of them
  is missing, the request is answered 400 before the due date is looked at.
\<close>

theorem edit_rejects_past_due_date:
  assumes "idle s" and "get_or_404 (table s) i = Some t"
    and "form ''due_date'' = Some ds" and "ds \<noteq> []"
    and "strptime ds = Inr d" and "d < today"
  shows "table (fst (request (edit strptime today POST i form) s)) = table s \<and>
     get_or_404 (table (fst (request (edit strptime today POST i form) s))) i = Some t \<and>
     (form ''task'' \<noteq> None \<and> form ''priority'' \<noteq> None \<longrightarrow>
        request (edit strptime today POST i form) s =
          (s\<lparr>flashes := flashes s @ [(''Due date cannot be in the past!'', ''danger'')]\<rparr>,
           Redirect (Edit i))) \<and>
     (form ''task'' = None \<or> form ''priority'' = None \<longrightarrow>
        request (edit strptime today POST i form) s = (s, BadRequest))"
proof -
  from assms(1,2) have w: "get_or_404 (work s) i = Some t" by (simp add: idle_def)
  have s: "s\<lparr>work := table s\<rparr> = s" using assms(1) by (simp add: idle_def)
  have full: "request (edit strptime today POST i form) s =
          (s\<lparr>flashes := flashes s @ [(''Due date cannot be in the past!'', ''danger'')]\<rparr>,
           Redirect (Edit i))"
    if "form ''task'' \<noteq> None" "form ''priority'' \<noteq> None"
    using that w assms(1,3-6)
    by (auto simp: request_def edit_def Let_def truthy_def flash_def teardown_def idle_def)
  have bad: "request (edit strptime today POST i form) s = (s, BadRequest)"
    if "form ''task'' = None \<or> form ''priority'' = None"
    using that w s
    by (auto simp: request_def edit_def Let_def teardown_def split: option.splits)
  have tab: "table (fst (request (edit strptime today POST i form) s)) = table s"
  proof (cases "form ''task'' = None \<or> form ''priority'' = None")
    case True
    from bad [OF True] show ?thesis by simp
  next
    case False
    then have "form ''task'' \<noteq> None" "form ''priority'' \<noteq> None" by auto
    from full [OF this] show ?thesis by simp
  qed
  from tab assms(2) full bad show ?thesis by simp
qed

theorem edit_rejects_past_due_date_witness:
  "request (edit sample_strptime 739252 POST 1
       [''task'' \<mapsto> ''call the bank'', ''priority'' \<mapsto> ''Low'', ''due_date'' \<mapsto> ''2024-12-31''])
     sample_store =
       (sample_store\<lparr>flashes := [(''Due date cannot be in the past!'', ''danger'')]\<rparr>,
        Redirect (Edit 1)) \<and>
   get_or_404 (table (fst (request (edit sample_strptime 739252 POST 1
       [''task'' \<mapsto> ''call the bank'', ''priority'' \<mapsto> ''Low'', ''due_date'' \<mapsto> ''2024-12-31''])
     sample_store))) 1 = Some (sample 1 ''High'' False (Some 739260)) \<and>
   request (edit sample_strptime 739252 POST 1
       [''task'' \<mapsto> ''call the bank'', ''due_date'' \<mapsto> ''2024-12-31''])
     sample_store = (sample_store, BadRequest)"
proof -
  have i: "idle sample_store" by (simp add: idle_def sample_store_def)
  have g: "get_or_404 (table sample_store) 1 = Some (sample 1 ''High'' False (Some 739260))"
    by (simp add: get_or_404_def sample_store_def sample_def)
  have f: "flashes sample_store = []" by (simp add: sample_store_def)
  have p: "sample_strptime ''2024-12-31'' = Inr 739251" by (simp add: sample_strptime_def)
  have a: "request (edit sample_strptime 739252 POST 1
       [''task'' \<mapsto> ''call the bank'', ''priority'' \<mapsto> ''Low'', ''due_date'' \<mapsto> ''2024-12-31''])
     sample_store =
       (sample_store\<lparr>flashes := [(''Due date cannot be in the past!'', ''danger'')]\<rparr>,
        Redirect (Edit 1)) \<and>
   get_or_404 (table (fst (request (edit sample_strptime 739252 POST 1
       [''task'' \<mapsto> ''call the bank'', ''priority'' \<mapsto> ''Low'', ''due_date'' \<mapsto> ''2024-12-31''])
     sample_store))) 1 = Some (sample 1 ''High'' False (Some 739260))"
    using edit_rejects_past_due_date [OF i g, of
      "[''task'' \<mapsto> ''call the bank'', ''priority'' \<mapsto> ''Low'', ''due_date'' \<mapsto> ''2024-12-31'']"
      "''2024-12-31''" sample_strptime 739251 739252] f p g
    by simp
  have b: "request (edit sample_strptime 739252 POST 1
       [''task'' \<mapsto> ''call the bank'', ''due_date'' \<mapsto> ''2024-12-31''])
     sample_store = (sample_store, BadRequest)"
    using edit_rejects_past_due_date [OF i g, of
      "[''task'' \<mapsto> ''call the bank'', ''due_date'' \<mapsto> ''2024-12-31'']"
      "''2024-12-31''" sample_strptime 739251 739252] p
    by simp
  from a b show ?thesis by blast
qed

text \<open>
  C4: a POST to add with a due date that parses to a day before today leaves the table as
  it was; when the form has its text and priority, the response is the redirect to the
  index with the flashed message.
\<close>

theorem add_rejects_past_due_date:
  assumes "form ''due_date'' = Some ds" and "ds \<noteq> []"
    and "strptime ds = Inr d" and "d < today"
  shows "table (fst (request (add strptime today utcnow form) s)) = table s \<and>
     (form ''task'' \<noteq> None \<and> form ''priority'' \<noteq> None \<longrightarrow>
        snd (request (add strptime today utcnow form) s) = Redirect Index \<and>
        flashes (fst (request (add strptime today utcnow form) s)) =
          flashes s @ [(''Due date cannot be in the past!'', ''danger'')])"
  using assms
  by (auto simp: request_fst request_snd table_teardown flashes_teardown add_def truthy_def
      flash_def split: option.splits)

theorem add_rejects_past_due_date_witness:
  "request (add sample_strptime 739252 sample_now
       [''task'' \<mapsto> ''call the bank'', ''priority'' \<mapsto> ''Low'', ''due_date'' \<mapsto> ''2024-12-31''])
     sample_store =
       (sample_store\<lparr>flashes := [(''Due date cannot be in the past!'', ''danger'')]\<rparr>,
        Redirect Index) \<and>
   table (fst (request (add sample_strptime 739252 sample_now
       [''task'' \<mapsto> ''call the bank'', ''priority'' \<mapsto> ''Low'', ''due_date'' \<mapsto> ''2024-12-31''])
     sample_store)) = table sample_store"
proof -
  have e: "request (add sample_strptime 739252 sample_now
       [''task'' \<mapsto> ''call the bank'', ''priority'' \<mapsto> ''Low'', ''due_date'' \<mapsto> ''2024-12-31''])
     sample_store =
       (sample_store\<lparr>flashes := [(''Due date cannot be in the past!'', ''danger'')]\<rparr>,
        Redirect Index)"
    by (simp add: request_def add_def truthy_def sample_strptime_def flash_def teardown_def
        sample_store_def)
  from add_rejects_past_due_date [of
      "[''task'' \<mapsto> ''call the bank'', ''priority'' \<mapsto> ''Low'', ''due_date'' \<mapsto> ''2024-12-31'']"
      "''2024-12-31''" sample_strptime 739251 739252 sample_now sample_store]
  have "table (fst (request (add sample_strptime 739252 sample_now
       [''task'' \<mapsto> ''call the bank'', ''priority'' \<mapsto> ''Low'', ''due_date'' \<mapsto> ''2024-12-31''])
     sample_store)) = table sample_store"
    by (simp add: sample_strptime_def)
  with e show ?thesis by (rule conjI)
qed

text \<open>
  C5, as stated, fails: add tests the text as submitted and never trims it, so a text of
  two spaces, empty after trimming, is stored.
\<close>

theorem add_keeps_whitespace_text:
  "strip ''  '' = [] \<and>
   table (fst (request (add sample_strptime 739252 sample_now
       [''task'' \<mapsto> ''  '', ''priority'' \<mapsto> ''Medium'']) initial)) =
     [\<lparr>task_id = 1, task = ''  '', completed = False, priority = ''Medium'', due_date = None,
       created_at = sample_now, completed_at = None\<rparr>]"
  by (simp add: strip_def isspace_def request_def add_def add_row_def truthy_def commit_def
      teardown_def initial_def next_id_def Let_def)

text \<open>
  C5, amended: a POST to add whose text is the empty string creates no task; when the form
  has a priority and its due date is absent, empty or a date not before today, the request
  is dropped silently: the plain redirect to the index, no message, the state as it was.
  The text is tested as submitted: a text that is not the empty string, a text of
  whitespace included, sent with a priority and with a due date that is absent, empty or
  not before today, is stored as one new task with exactly that text. A request to add
  either leaves the table as it was or appends one task, whose text is the submitted text
  and is not the empty string.
\<close>

theorem add_drops_empty_text:
  assumes "idle s"
  shows "(form ''task'' = Some [] \<longrightarrow>
       table (fst (request (add strptime today utcnow form) s)) = table s) \<and>
     (form ''task'' = Some [] \<and> form ''priority'' \<noteq> None \<and>
        (\<not> truthy (form ''due_date'') \<or>
         (\<exists>d. strptime (the (form ''due_date'')) = Inr d \<and> \<not> d < today)) \<longrightarrow>
       request (add strptime today utcnow form) s = (s, Redirect Index)) \<and>
     (\<forall>tx pr. form ''task'' = Some tx \<and> tx \<noteq> [] \<and> form ''priority'' = Some pr \<and>
        \<not> truthy (form ''due_date'') \<longrightarrow>
       request (add strptime today utcnow form) s =
         (s\<lparr>table := table s @ [\<lparr>task_id = next_id (table s), task = tx, completed = False,
               priority = pr, due_date = None, created_at = utcnow, completed_at = None\<rparr>],
            work := table s @ [\<lparr>task_id = next_id (table s), task = tx, completed = False,
               priority = pr, due_date = None, created_at = utcnow, completed_at = None\<rparr>]\<rparr>,
          Redirect Index)) \<and>
     (\<forall>tx pr d. form ''task'' = Some tx \<and> tx \<noteq> [] \<and> form ''priority'' = Some pr \<and>
        truthy (form ''due_date'') \<and> strptime (the (form ''due_date'')) = Inr d \<and> \<not> d < today \<longrightarrow>
       request (add strptime today utcnow form) s =
         (s\<lparr>table := table s @ [\<lparr>task_id = next_id (table s), task = tx, completed = False,
               priority = pr, due_date = Some d, created_at = utcnow, completed_at = None\<rparr>],
            work := table s @ [\<lparr>task_id = next_id (table s), task = tx, completed = False,
               priority = pr, due_date = Some d, created_at = utcnow, completed_at = None\<rparr>]\<rparr>,
          Redirect Index)) \<and>
     (table (fst (request (add strptime today utcnow form) s)) = table s \<or>
      (\<exists>t. table (fst (request (add strptime today utcnow form) s)) = table s @ [t] \<and>
           form ''task'' = Some (task t) \<and> task t \<noteq> []))"
proof -
  from assms have w: "work s = table s" by (simp add: idle_def)
  have s: "s\<lparr>work := table s\<rparr> = s" using w by simp
  have 1: "table (fst (request (add strptime today utcnow form) s)) = table s"
    if "form ''task'' = Some []"
    using that table_add_cases [of strptime today utcnow form s]
    by (auto simp: request_fst table_teardown)
  have 2: "request (add strptime today utcnow form) s = (s, Redirect Index)"
    if "form ''task'' = Some []" "form ''priority'' \<noteq> None"
       "\<not> truthy (form ''due_date'') \<or>
         (\<exists>d. strptime (the (form ''due_date'')) = Inr d \<and> \<not> d < today)"
    using that s
    by (auto simp: request_def add_def add_row_def teardown_def)
  have 3: "request (add strptime today utcnow form) s =
         (s\<lparr>table := table s @ [\<lparr>task_id = next_id (table s), task = tx, completed = False,
               priority = pr, due_date = None, created_at = utcnow, completed_at = None\<rparr>],
            work := table s @ [\<lparr>task_id = next_id (table s), task = tx, completed = False,
               priority = pr, due_date = None, created_at = utcnow, completed_at = None\<rparr>]\<rparr>,
          Redirect Index)"
    if "form ''task'' = Some tx" "tx \<noteq> []" "form ''priority'' = Some pr"
       "\<not> truthy (form ''due_date'')" for tx pr
    using that w
    by (simp add: request_def add_def add_row_def teardown_def commit_def Let_def)
  have 4: "request (add strptime today utcnow form) s =
         (s\<lparr>table := table s @ [\<lparr>task_id = next_id (table s), task = tx, completed = False,
               priority = pr, due_date = Some d, created_at = utcnow, completed_at = None\<rparr>],
            work := table s @ [\<lparr>task_id = next_id (table s), task = tx, completed = False,
               priority = pr, due_date = Some d, created_at = utcnow, completed_at = None\<rparr>]\<rparr>,
          Redirect Index)"
    if "form ''task'' = Some tx" "tx \<noteq> []" "form ''priority'' = Some pr"
       "truthy (form ''due_date'')" "strptime (the (form ''due_date'')) = Inr d" "\<not> d < today"
    for tx pr d
    using that w
    by (simp add: request_def add_def add_row_def teardown_def commit_def Let_def)
  have 5: "table (fst (request (add strptime today utcnow form) s)) = table s \<or>
      (\<exists>t. table (fst (request (add strptime today utcnow form) s)) = table s @ [t] \<and>
           form ''task'' = Some (task t) \<and> task t \<noteq> [])"
    using table_add_cases [of strptime today utcnow form s] w
    by (auto simp: request_fst table_teardown)
  from 1 2 3 4 5 show ?thesis by blast
qed

theorem add_drops_empty_text_witness:
  "request (add sample_strptime 739252 sample_now
       [''task'' \<mapsto> [], ''priority'' \<mapsto> ''Medium'']) sample_store = (sample_store, Redirect Index) \<and>
   request (add sample_strptime 739252 sample_now
       [''task'' \<mapsto> [], ''priority'' \<mapsto> ''Medium'', ''due_date'' \<mapsto> ''2025-01-02'']) sample_store
     = (sample_store, Redirect Index) \<and>
   table (fst (request (add sample_strptime 739252 sample_now
       [''task'' \<mapsto> ''  '', ''priority'' \<mapsto> ''Medium'']) sample_store))
     = table sample_store @
       [\<lparr>task_id = 3, task = ''  '', completed = False, priority = ''Medium'', due_date = None,
         created_at = sample_now, completed_at = None\<rparr>]"
proof -
  have i: "idle sample_store" by (simp add: idle_def sample_store_def)
  have n: "next_id (table sample_store) = 3"
    by (simp add: next_id_def sample_store_def sample_def)
  have a: "request (add sample_strptime 739252 sample_now
       [''task'' \<mapsto> [], ''priority'' \<mapsto> ''Medium'']) sample_store = (sample_store, Redirect Index)"
    using add_drops_empty_text [OF i, of "[''task'' \<mapsto> [], ''priority'' \<mapsto> ''Medium'']"
        sample_strptime 739252 sample_now]
    by (simp add: truthy_def)
  have b: "request (add sample_strptime 739252 sample_now
       [''task'' \<mapsto> [], ''priority'' \<mapsto> ''Medium'', ''due_date'' \<mapsto> ''2025-01-02'']) sample_store
     = (sample_store, Redirect Index)"
    using add_drops_empty_text [OF i,
        of "[''task'' \<mapsto> [], ''priority'' \<mapsto> ''Medium'', ''due_date'' \<mapsto> ''2025-01-02'']"
        sample_strptime 739252 sample_now]
    by (simp add: truthy_def sample_strptime_def)
  have c: "table (fst (request (add sample_strptime 739252 sample_now
       [''task'' \<mapsto> ''  '', ''priority'' \<mapsto> ''Medium'']) sample_store))
     = table sample_store @
       [\<lparr>task_id = 3, task = ''  '', completed = False, priority = ''Medium'', due_date = None,
         created_at = sample_now, completed_at = None\<rparr>]"
    using add_drops_empty_text [OF i, of "[''task'' \<mapsto> ''  '', ''priority'' \<mapsto> ''Medium'']"
        sample_strptime 739252 sample_now] n
    by (simp add: truthy_def)
  from a b c show ?thesis by simp
qed

text \<open>
  C6: when every priority is High, Medium or Low, the listing sorted by priority is a
  permutation of the rows in which every High task stands before every Medium task, every
  Medium task before every Low task, and, among the tasks of one priority, every
  incomplete task before every completed one.
\<close>

theorem index_sort_by_priority:
  assumes "\<forall>t\<in>set q. priority t \<in> {''High'', ''Medium'', ''Low''}"
  shows "\<exists>ys. index_sort ''priority'' q = Inr ys \<and> mset ys = mset q \<and>
     all_before (\<lambda>t. priority t = ''High'') (\<lambda>t. priority t = ''Medium'') ys \<and>
     all_before (\<lambda>t. priority t = ''Medium'') (\<lambda>t. priority t = ''Low'') ys \<and>
     all_before (\<lambda>t. priority t = ''High'') (\<lambda>t. priority t = ''Low'') ys \<and>
     (\<forall>p. all_before (\<lambda>t. priority t = p \<and> \<not> completed t) (\<lambda>t. priority t = p \<and> completed t) ys)"
proof -
  define k where "k = (\<lambda>t::Task. (the (priority_order (priority t)), completed t))"
  have key: "\<forall>t\<in>set q. priority_key t = Inr (k t)"
    using assms by (auto simp: priority_key_def k_def priority_order_cases)
  from sorted_py_total [of "tuple_lt (=) int_lt (=) bool_lt" "\<lambda>x. x" q priority_key k,
      OF tuple_lt_int_bool key]
  obtain ys where ys: "sorted_py (tuple_lt (=) int_lt (=) bool_lt) priority_key q = Inr ys"
    "mset ys = mset q" "sorted (map k ys)" by blast
  have 1: "all_before (\<lambda>t. priority t = ''High'') (\<lambda>t. priority t = ''Medium'') ys"
    by (rule sorted_all_before [OF ys(3)]) (simp add: k_def priority_order_cases less_prod_def)
  have 2: "all_before (\<lambda>t. priority t = ''Medium'') (\<lambda>t. priority t = ''Low'') ys"
    by (rule sorted_all_before [OF ys(3)]) (simp add: k_def priority_order_cases less_prod_def)
  have 3: "all_before (\<lambda>t. priority t = ''High'') (\<lambda>t. priority t = ''Low'') ys"
    by (rule sorted_all_before [OF ys(3)]) (simp add: k_def priority_order_cases less_prod_def)
  have 4: "all_before (\<lambda>t. priority t = p \<and> \<not> completed t) (\<lambda>t. priority t = p \<and> completed t) ys" for p
    by (rule sorted_all_before [OF ys(3)]) (simp add: k_def less_prod_def)
  from ys(1,2) 1 2 3 4 show ?thesis by (simp add: index_sort_def)
qed

theorem index_sort_by_priority_witness:
  "(\<exists>ys. index_sort ''priority'' [sample 1 ''Low'' False None, sample 2 ''High'' True None,
       sample 3 ''Medium'' False None, sample 4 ''High'' False None] = Inr ys \<and>
     mset ys = mset [sample 1 ''Low'' False None, sample 2 ''High'' True None,
       sample 3 ''Medium'' False None, sample 4 ''High'' False None] \<and>
     all_before (\<lambda>t. priority t = ''High'') (\<lambda>t. priority t = ''Medium'') ys \<and>
     all_before (\<lambda>t. priority t = ''Medium'') (\<lambda>t. priority t = ''Low'') ys \<and>
     all_before (\<lambda>t. priority t = ''High'') (\<lambda>t. priority t = ''Low'') ys \<and>
     (\<forall>p. all_before (\<lambda>t. priority t = p \<and> \<not> completed t) (\<lambda>t. priority t = p \<and> completed t) ys))
   \<and> index_sort ''priority'' [sample 1 ''Low'' False None, sample 2 ''High'' True None,
       sample 3 ''Medium'' False None, sample 4 ''High'' False None]
     = Inr [sample 4 ''High'' False None, sample 2 ''High'' True None,
       sample 3 ''Medium'' False None, sample 1 ''Low'' False None]"
proof -
  have "\<forall>t\<in>set [sample 1 ''Low'' False None, sample 2 ''High'' True None,
       sample 3 ''Medium'' False None, sample 4 ''High'' False None].
       priority t \<in> {''High'', ''Medium'', ''Low''}"
    by (simp add: sample_def)
  from index_sort_by_priority [OF this]
  have 1: "\<exists>ys. index_sort ''priority'' [sample 1 ''Low'' False None, sample 2 ''High'' True None,
       sample 3 ''Medium'' False None, sample 4 ''High'' False None] = Inr ys \<and>
     mset ys = mset [sample 1 ''Low'' False None, sample 2 ''High'' True None,
       sample 3 ''Medium'' False None, sample 4 ''High'' False None] \<and>
     all_before (\<lambda>t. priority t = ''High'') (\<lambda>t. priority t = ''Medium'') ys \<and>
     all_before (\<lambda>t. priority t = ''Medium'') (\<lambda>t. priority t = ''Low'') ys \<and>
     all_before (\<lambda>t. priority t = ''High'') (\<lambda>t. priority t = ''Low'') ys \<and>
     (\<forall>p. all_before (\<lambda>t. priority t = p \<and> \<not> completed t) (\<lambda>t. priority t = p \<and> completed t) ys)" .
  have 2: "index_sort ''priority'' [sample 1 ''Low'' False None, sample 2 ''High'' True None,
       sample 3 ''Medium'' False None, sample 4 ''High'' False None]
     = Inr [sample 4 ''High'' False None, sample 2 ''High'' True None,
       sample 3 ''Medium'' False None, sample 1 ''Low'' False None]"
    by (simp add: index_sort_def sorted_py_def priority_key_def priority_order_def sample_def
        tuple_lt_def int_lt_def bool_lt_def)
  from 1 2 show ?thesis by (rule conjI)
qed

text \<open>
  C7, as stated, fails in its last part: a pending task due in two days is in none of the
  three buckets, so the buckets do not cover the pending tasks that have a due date.
\<close>

theorem index_notifications_no_partition:
  "index_notifications 739252 [sample 4 ''Low'' False (Some 739254)]
     = Inr \<lparr>overdue_tasks = [], due_today_tasks = [], due_soon_tasks = []\<rparr> \<and>
   \<not> completed (sample 4 ''Low'' False (Some 739254)) \<and>
   due_date (sample 4 ''Low'' False (Some 739254)) = Some 739254"
  by (simp add: index_notifications_def date_add_def date_min_def date_max_def sample_def)

text \<open>
  C7, amended: for a current date below the last date, the buckets are computed, and a
  pending task with a due date is in the overdue bucket iff the date is before today, in
  the due-today bucket iff it is today, in the due-soon bucket iff it is after today and
  at most one day ahead. The three buckets are pairwise disjoint, and together they hold
  exactly the pending tasks whose due date is at most one day ahead.
\<close>

theorem index_notifications_buckets:
  assumes "date_min \<le> today" and "today < date_max"
  shows "\<exists>n. index_notifications today rows = Inr n \<and>
     (\<forall>t d. t \<in> set rows \<and> \<not> completed t \<and> due_date t = Some d \<longrightarrow>
        (t \<in> set (overdue_tasks n) \<longleftrightarrow> d < today) \<and>
        (t \<in> set (due_today_tasks n) \<longleftrightarrow> d = today) \<and>
        (t \<in> set (due_soon_tasks n) \<longleftrightarrow> today < d \<and> d \<le> today + 1)) \<and>
     set (overdue_tasks n) \<inter> set (due_today_tasks n) = {} \<and>
     set (overdue_tasks n) \<inter> set (due_soon_tasks n) = {} \<and>
     set (due_today_tasks n) \<inter> set (due_soon_tasks n) = {} \<and>
     set (overdue_tasks n) \<union> set (due_today_tasks n) \<union> set (due_soon_tasks n) =
       {t \<in> set rows. \<not> completed t \<and> (\<exists>d. due_date t = Some d \<and> d \<le> today + 1)}"
proof -
  let ?n = "\<lparr>overdue_tasks =
                     filter (\<lambda>t. case due_date t of None \<Rightarrow> False
                                  | Some d \<Rightarrow> d < today) (filter (\<lambda>t. \<not> completed t) rows),
                   due_today_tasks =
                     filter (\<lambda>t. case due_date t of None \<Rightarrow> False
                                  | Some d \<Rightarrow> d = today) (filter (\<lambda>t. \<not> completed t) rows),
                   due_soon_tasks =
                     filter (\<lambda>t. case due_date t of None \<Rightarrow> False
                                  | Some d \<Rightarrow> today < d \<and> d \<le> today + 1) (filter (\<lambda>t. \<not> completed t) rows)\<rparr>"
  have n: "index_notifications today rows = Inr ?n"
    using date_add_ok [OF assms] by (simp add: index_notifications_def)
  have 1: "\<forall>t d. t \<in> set rows \<and> \<not> completed t \<and> due_date t = Some d \<longrightarrow>
        (t \<in> set (overdue_tasks ?n) \<longleftrightarrow> d < today) \<and>
        (t \<in> set (due_today_tasks ?n) \<longleftrightarrow> d = today) \<and>
        (t \<in> set (due_soon_tasks ?n) \<longleftrightarrow> today < d \<and> d \<le> today + 1)"
    by simp
  have 2: "set (overdue_tasks ?n) \<inter> set (due_today_tasks ?n) = {}"
    by (auto split: option.splits)
  have 3: "set (overdue_tasks ?n) \<inter> set (due_soon_tasks ?n) = {}"
    by (auto split: option.splits)
  have 4: "set (due_today_tasks ?n) \<inter> set (due_soon_tasks ?n) = {}"
    by (auto split: option.splits)
  have 5: "set (overdue_tasks ?n) \<union> set (due_today_tasks ?n) \<union> set (due_soon_tasks ?n) =
       {t \<in> set rows. \<not> completed t \<and> (\<exists>d. due_date t = Some d \<and> d \<le> today + 1)}"
    by (auto split: option.splits)
  from n 1 2 3 4 5 show ?thesis by blast
qed

theorem index_notifications_buckets_witness:
  "index_notifications 739252
     [sample 1 ''High'' False (Some 739251), sample 2 ''Low'' False (Some 739252),
      sample 3 ''Low'' False (Some 739253), sample 4 ''Low'' False (Some 739254),
      sample 5 ''Low'' True (Some 739251), sample 6 ''Low'' False None]
   = Inr \<lparr>overdue_tasks = [sample 1 ''High'' False (Some 739251)],
          due_today_tasks = [sample 2 ''Low'' False (Some 739252)],
          due_soon_tasks = [sample 3 ''Low'' False (Some 739253)]\<rparr> \<and>
   (\<exists>n. index_notifications 739252
     [sample 1 ''High'' False (Some 739251), sample 2 ''Low'' False (Some 739252),
      sample 3 ''Low'' False (Some 739253), sample 4 ''Low'' False (Some 739254),
      sample 5 ''Low'' True (Some 739251), sample 6 ''Low'' False None] = Inr n \<and>
      set (overdue_tasks n) \<inter> set (due_today_tasks n) = {} \<and>
      set (overdue_tasks n) \<inter> set (due_soon_tasks n) = {} \<and>
      set (due_today_tasks n) \<inter> set (due_soon_tasks n) = {})"
proof -
  have a: "date_min \<le> 739252" by (simp add: date_min_def)
  have b: "739252 < date_max" by (simp add: date_max_def)
  have c: "index_notifications 739252
     [sample 1 ''High'' False (Some 739251), sample 2 ''Low'' False (Some 739252),
      sample 3 ''Low'' False (Some 739253), sample 4 ''Low'' False (Some 739254),
      sample 5 ''Low'' True (Some 739251), sample 6 ''Low'' False None]
   = Inr \<lparr>overdue_tasks = [sample 1 ''High'' False (Some 739251)],
          due_today_tasks = [sample 2 ''Low'' False (Some 739252)],
          due_soon_tasks = [sample 3 ''Low'' False (Some 739253)]\<rparr>"
    by (simp add: index_notifications_def date_add_def date_min_def date_max_def sample_def)
  from index_notifications_buckets [OF a b, of "[sample 1 ''High'' False (Some 739251), sample 2 ''Low'' False (Some 739252),
      sample 3 ''Low'' False (Some 739253), sample 4 ''Low'' False (Some 739254),
      sample 5 ''Low'' True (Some 739251), sample 6 ''Low'' False None]"]
  have "\<exists>n. index_notifications 739252
     [sample 1 ''High'' False (Some 739251), sample 2 ''Low'' False (Some 739252),
      sample 3 ''Low'' False (Some 739253), sample 4 ''Low'' False (Some 739254),
      sample 5 ''Low'' True (Some 739251), sample 6 ''Low'' False None] = Inr n \<and>
      set (overdue_tasks n) \<inter> set (due_today_tasks n) = {} \<and>
      set (overdue_tasks n) \<inter> set (due_soon_tasks n) = {} \<and>
      set (due_today_tasks n) \<inter> set (due_soon_tasks n) = {}"
    by blast
  with c show ?thesis by (rule conjI)
qed

text \<open>
  C8: for a current date with six days before it, the streak of the dashboard is the
  number k, at most 7, such that each of the k days today, today - 1, ... has at least one
  completion and, when k is less than 7, the day today - k has none.
\<close>

theorem dashboard_streak_trailing_days:
  assumes "date_min + 6 \<le> today" and "today \<le> date_max"
  shows "\<exists>k. dashboard_streak today rows = Inr k \<and> k \<le> 7 \<and>
     (\<forall>i < k. completions_on rows (today - int i) > 0) \<and>
     (k < 7 \<longrightarrow> completions_on rows (today - int k) = 0)"
proof -
  define P where "P = (\<lambda>d. get_or_0 (completions_per_day rows) d > 0)"
  define days where "days = map (\<lambda>i. today - int i) [0..<7]"
  define k where "k = length (takeWhile P days)"
  have len: "length days = 7" by (simp add: days_def)
  have nth: "days ! i = today - int i" if "i < 7" for i
    using that by (simp add: days_def del: upt_Suc)
  have rv: "rev (map (\<lambda>i. today - int i) (rev [0..<7])) = days"
    by (simp only: days_def rev_map rev_rev_ident)
  have res: "dashboard_streak today rows = Inr k"
    using last_7_days_ok [OF assms] rv
    by (simp add: dashboard_streak_def streak_loop_takeWhile k_def P_def)
  have k7: "k \<le> 7" using length_takeWhile_le [of P days] len by (simp add: k_def)
  have pos: "completions_on rows (today - int i) > 0" if "i < k" for i
  proof -
    from that have "takeWhile P days ! i \<in> set (takeWhile P days)" by (simp add: k_def)
    then have "P (takeWhile P days ! i)" by (rule set_takeWhileD [THEN conjunct2])
    moreover from that have "takeWhile P days ! i = days ! i"
      unfolding k_def by (rule takeWhile_nth)
    moreover from that k7 have "i < 7" by simp
    ultimately have "P (today - int i)" by (simp add: nth)
    then show ?thesis by (simp add: P_def completions_per_day_get)
  qed
  have stop: "completions_on rows (today - int k) = 0" if "k < 7"
  proof -
    from that len have "length (takeWhile P days) < length days" by (simp add: k_def)
    then have "\<not> P (days ! length (takeWhile P days))" by (rule nth_length_takeWhile)
    then have "\<not> P (days ! k)" unfolding k_def .
    with that have "\<not> P (today - int k)" by (simp add: nth)
    then show ?thesis by (simp add: P_def completions_per_day_get)
  qed
  from res k7 pos stop show ?thesis by blast
qed

theorem dashboard_streak_trailing_days_witness:
  "dashboard_streak 739254
     [sample 1 ''High'' True None, sample 2 ''Low'' False None,
      (sample 3 ''Low'' True None)\<lparr>completed_at := Some \<lparr>dt_date = 739254, dt_micros = 5\<rparr>\<rparr>,
      (sample 4 ''Low'' True None)\<lparr>completed_at := Some \<lparr>dt_date = 739251, dt_micros = 0\<rparr>\<rparr>]
     = Inr 2"
proof -
  have a: "date_min + 6 \<le> 739254" by (simp add: date_min_def)
  have b: "739254 \<le> date_max" by (simp add: date_max_def)
  let ?rows = "[sample 1 ''High'' True None, sample 2 ''Low'' False None,
      (sample 3 ''Low'' True None)\<lparr>completed_at := Some \<lparr>dt_date = 739254, dt_micros = 5\<rparr>\<rparr>,
      (sample 4 ''Low'' True None)\<lparr>completed_at := Some \<lparr>dt_date = 739251, dt_micros = 0\<rparr>\<rparr>]"
  from dashboard_streak_trailing_days [OF a b, of ?rows]
  obtain k where k: "dashboard_streak 739254 ?rows = Inr k" "k \<le> 7"
    "\<forall>i < k. completions_on ?rows (739254 - int i) > 0"
    "k < 7 \<longrightarrow> completions_on ?rows (739254 - int k) = 0" by blast
  have c0: "completions_on ?rows 739254 > 0" by (simp add: completions_on_def sample_def)
  have c1: "completions_on ?rows 739253 > 0" by (simp add: completions_on_def sample_def)
  have c2: "completions_on ?rows 739252 = 0" by (simp add: completions_on_def sample_def)
  have "k = 2"
  proof (rule ccontr)
    assume ne: "k \<noteq> 2"
    show False
    proof (cases "k < 2")
      case True
      then have "k = 0 \<or> k = 1" by auto
      with k(4) c0 c1 show False by auto
    next
      case False
      with ne have "2 < k" by simp
      with k(3) have "completions_on ?rows (739254 - int 2) > 0" by blast
      with c2 show False by simp
    qed
  qed
  with k(1) show ?thesis by simp
qed

text \<open>
  C9: a request to complete an existing task redirects to the index and stores the task
  with completed true and completed_at the current time when it was incomplete, with
  completed false and no completed_at when it was completed; every other field of the
  task is as before, every other row is as before, and no row is added or removed.
\<close>

theorem complete_toggles:
  assumes "idle s" and "get_or_404 (table s) i = Some t"
  shows "snd (request (complete utcnow i) s) = Redirect Index \<and>
     get_or_404 (table (fst (request (complete utcnow i) s))) i =
       Some (if completed t then t\<lparr>completed := False, completed_at := None\<rparr>
             else t\<lparr>completed := True, completed_at := Some utcnow\<rparr>) \<and>
     (\<forall>j. j \<noteq> i \<longrightarrow> get_or_404 (table (fst (request (complete utcnow i) s))) j
         = get_or_404 (table s) j) \<and>
     length (table (fst (request (complete utcnow i) s))) = length (table s)"
proof -
  let ?t' = "if completed t then t\<lparr>completed := False, completed_at := None\<rparr>
             else t\<lparr>completed := True, completed_at := Some utcnow\<rparr>"
  from assms have w: "get_or_404 (work s) i = Some t" by (simp add: idle_def)
  from assms(2) have id: "task_id ?t' = i" using get_or_404_Some by auto
  have tab: "table (fst (request (complete utcnow i) s)) = set_row ?t' (table s)"
    using w assms(1) by (simp add: request_fst table_teardown table_complete idle_def)
  have 1: "snd (request (complete utcnow i) s) = Redirect Index"
    using w by (simp add: request_snd complete_def Let_def)
  have 2: "get_or_404 (set_row ?t' (table s)) i = Some ?t'"
    using assms(2) id by (rule get_or_404_set_row_same)
  have 3: "\<forall>j. j \<noteq> i \<longrightarrow> get_or_404 (set_row ?t' (table s)) j = get_or_404 (table s) j"
    using id get_or_404_set_row_other [of _ ?t' "table s"] by blast
  from 1 2 3 show ?thesis by (simp add: tab length_set_row)
qed

theorem complete_toggles_witness:
  "get_or_404 (table (fst (request (complete sample_now 1) sample_store))) 1
     = Some ((sample 1 ''High'' False (Some 739260))\<lparr>completed := True, completed_at := Some sample_now\<rparr>) \<and>
   get_or_404 (table (fst (request (complete sample_now 2) sample_store))) 2
     = Some ((sample 2 ''Low'' True None)\<lparr>completed := False, completed_at := None\<rparr>) \<and>
   get_or_404 (table (fst (request (complete sample_now 1) sample_store))) 2
     = Some (sample 2 ''Low'' True None)"
proof -
  have i: "idle sample_store" by (simp add: idle_def sample_store_def)
  have g1: "get_or_404 (table sample_store) 1 = Some (sample 1 ''High'' False (Some 739260))"
    by (simp add: get_or_404_def sample_store_def sample_def)
  have g2: "get_or_404 (table sample_store) 2 = Some (sample 2 ''Low'' True None)"
    by (simp add: get_or_404_def sample_store_def sample_def)
  have c1: "\<not> completed (sample 1 ''High'' False (Some 739260))" by (simp add: sample_def)
  have c2: "completed (sample 2 ''Low'' True None)" by (simp add: sample_def)
  from complete_toggles [OF i g1, of sample_now] complete_toggles [OF i g2, of sample_now] c1 c2 g2
  show ?thesis by simp
qed

text \<open>
  C10: a task whose priority is not High, Medium or Low has no rank in the priority
  table; its sort key on the index listing is the KeyError, and so is the sort of any
  listing that holds it. The sort of the incomplete-tasks listing gives the same task the
  rank 4 and always returns: a permutation of the incomplete rows with every Low task
  before every task of an unknown priority.
\<close>

theorem index_priority_sort_partial:
  assumes "priority t \<notin> {''High'', ''Medium'', ''Low''}" and "t \<in> set q"
  shows "priority_order (priority t) = None \<and> priority_key t = Inl KeyError \<and>
     index_sort ''priority'' q = Inl KeyError \<and>
     (\<exists>d. incomplete_key t = Inr (4, d)) \<and>
     (\<exists>ys. incomplete_tasks_sort q = Inr ys \<and> mset ys = mset (filter (\<lambda>u. \<not> completed u) q) \<and>
        all_before (\<lambda>u. priority u = ''Low'') (\<lambda>u. priority u \<notin> {''High'', ''Medium'', ''Low''}) ys)"
proof -
  have none: "priority_order (priority t) = None"
    using assms(1) by (simp add: priority_order_cases)
  then have kerr: "priority_key t = Inl KeyError" by (simp add: priority_key_def)
  have "compute_keys priority_key q = Inl KeyError"
    by (rule compute_keys_error [of t q priority_key KeyError, OF assms(2) kerr]) (simp add: priority_key_def split: option.splits)
  then have srt: "index_sort ''priority'' q = Inl KeyError"
    by (simp add: index_sort_def sorted_py_def)
  have ik: "\<exists>d. incomplete_key t = Inr (4, d)" using none by (simp add: incomplete_key_def)
  define k where "k = (\<lambda>u::Task. (case priority_order (priority u) of None \<Rightarrow> 4 | Some r \<Rightarrow> r,
          case due_date u of Some d \<Rightarrow> d | None \<Rightarrow> date_max))"
  let ?inc = "filter (\<lambda>u. \<not> completed u) q"
  have key: "\<forall>u\<in>set ?inc. incomplete_key u = Inr (k u)" by (simp add: incomplete_key_def k_def)
  from sorted_py_total [of "tuple_lt (=) int_lt (=) int_lt" "\<lambda>x. x" ?inc incomplete_key k,
      OF tuple_lt_int_int key]
  obtain ys where ys: "sorted_py (tuple_lt (=) int_lt (=) int_lt) incomplete_key ?inc = Inr ys"
    "mset ys = mset ?inc" "sorted (map k ys)" by blast
  have ab: "all_before (\<lambda>u. priority u = ''Low'') (\<lambda>u. priority u \<notin> {''High'', ''Medium'', ''Low''}) ys"
    by (rule sorted_all_before [OF ys(3)]) (simp add: k_def priority_order_cases less_prod_def)
  have "\<exists>ys. incomplete_tasks_sort q = Inr ys \<and> mset ys = mset ?inc \<and>
        all_before (\<lambda>u. priority u = ''Low'') (\<lambda>u. priority u \<notin> {''High'', ''Medium'', ''Low''}) ys"
  proof (cases "?inc = []")
    case True
    then show ?thesis by (simp add: incomplete_tasks_sort_def all_before_def)
  next
    case False
    with ys ab show ?thesis by (simp add: incomplete_tasks_sort_def)
  qed
  with none kerr srt ik show ?thesis by blast
qed

theorem index_priority_sort_partial_witness:
  "priority_order (priority (sample 1 ''Urgent'' False None)) = None \<and>
   priority_key (sample 1 ''Urgent'' False None) = Inl KeyError \<and>
   index_sort ''priority'' [sample 2 ''Low'' False (Some 739300), sample 1 ''Urgent'' False None]
     = Inl KeyError \<and>
   incomplete_tasks_sort [sample 1 ''Urgent'' False None, sample 2 ''Low'' False (Some 739300)]
     = Inr [sample 2 ''Low'' False (Some 739300), sample 1 ''Urgent'' False None]"
proof -
  have a: "priority (sample 1 ''Urgent'' False None) \<notin> {''High'', ''Medium'', ''Low''}"
    by (simp add: sample_def)
  have b: "sample 1 ''Urgent'' False None
      \<in> set [sample 2 ''Low'' False (Some 739300), sample 1 ''Urgent'' False None]"
    by simp
  have c: "incomplete_tasks_sort [sample 1 ''Urgent'' False None, sample 2 ''Low'' False (Some 739300)]
     = Inr [sample 2 ''Low'' False (Some 739300), sample 1 ''Urgent'' False None]"
    by (simp add: incomplete_tasks_sort_def sorted_py_def incomplete_key_def priority_order_def
        sample_def tuple_lt_def int_lt_def date_max_def)
  from index_priority_sort_partial [OF a b] c show ?thesis by blast
qed

end
